theory Spec2Isabelle
  imports Main
begin

section \<open>Strings\<close>

text \<open>
  The script under verification is \<^verbatim>\<open>download_youtube.py\<close>. A Python \<^verbatim>\<open>str\<close> is a sequence
  of code points; here a \<^typ>\<open>char\<close> stands for one code point below 256 and a
  \<^typ>\<open>string\<close> for a Python string over that range. Every character the script itself
  inspects (the illegal filename characters, the host patterns, the suffix \<^verbatim>\<open>p\<close>) is
  ASCII.
\<close>

text \<open>\<^verbatim>\<open>str.isspace\<close> on one code point below 256: the characters \<^verbatim>\<open>str.strip()\<close> removes.\<close>

definition isspace :: "char \<Rightarrow> bool" where
  "isspace c = (of_char c \<in> {9, 10, 11, 12, 13, 28, 29, 30, 31, 32, 133, 160 :: nat})"

text \<open>\<^verbatim>\<open>s.lstrip()\<close>, \<^verbatim>\<open>s.rstrip()\<close> and \<^verbatim>\<open>s.strip()\<close> without argument.\<close>

definition lstrip :: "string \<Rightarrow> string" where
  "lstrip s = dropWhile isspace s"

definition rstrip :: "string \<Rightarrow> string" where
  "rstrip s = rev (dropWhile isspace (rev s))"

definition strip :: "string \<Rightarrow> string" where
  "strip s = rstrip (lstrip s)"

text \<open>
  \<^verbatim>\<open>re.sub(r'[...]', repl, s)\<close> for a pattern that is one character class: scanning from
  the left, every character of the class is a match and is replaced by the string
  \<^verbatim>\<open>repl\<close>; every other character is copied.
\<close>

fun re_sub_class :: "string \<Rightarrow> string \<Rightarrow> string \<Rightarrow> string" where
  "re_sub_class cls repl [] = []"
| "re_sub_class cls repl (c # s) =
     (if c \<in> set cls then repl @ re_sub_class cls repl s
      else c # re_sub_class cls repl s)"

section \<open>The filename sanitizer\<close>

text \<open>The class \<^verbatim>\<open>[<>:"/\\|?*]\<close> of the pattern in \<^verbatim>\<open>safe_title\<close>: nine characters.\<close>

definition illegal_chars :: string where
  "illegal_chars = [CHR ''<'', CHR ''>'', CHR '':'', CHR 0x22, CHR ''/'', CHR 0x5C,
                    CHR ''|'', CHR ''?'', CHR ''*'']"

text \<open>
  \<^verbatim>\<open>
  def safe_title(title: str) -> str:
      return re.sub(r'[<>:"/\\|?*]', "_", title).strip()
  \<close>
\<close>

definition safe_title :: "string \<Rightarrow> string" where
  "safe_title title = strip (re_sub_class illegal_chars ''_'' title)"

text \<open>
  The two readings of the sanitizer that the specification gives: deleting the illegal
  characters, and putting an underscore in the place of each.
\<close>

definition delete_illegal :: "string \<Rightarrow> string" where
  "delete_illegal title = strip (filter (\<lambda>c. c \<notin> set illegal_chars) title)"

definition underscore_illegal :: "string \<Rightarrow> string" where
  "underscore_illegal title =
     strip (map (\<lambda>c. if c \<in> set illegal_chars then CHR ''_'' else c) title)"

section \<open>More string operations of the standard library\<close>

text \<open>\<^verbatim>\<open>s.find(c)\<close> for one character: the first index, or nothing (Python's -1).\<close>

fun str_find :: "char \<Rightarrow> string \<Rightarrow> nat option" where
  "str_find c [] = None"
| "str_find c (x # xs) =
     (if x = c then Some 0 else map_option Suc (str_find c xs))"

text \<open>\<^verbatim>\<open>s.split(c)\<close> for one separator character; the result is never empty.\<close>

fun split_on :: "char \<Rightarrow> string \<Rightarrow> string list" where
  "split_on c [] = [[]]"
| "split_on c (x # xs) =
     (if x = c then [] # split_on c xs
      else (case split_on c xs of
              [] \<Rightarrow> [[x]]
            | w # ws \<Rightarrow> (x # w) # ws))"

text \<open>\<^verbatim>\<open>sep.join(xs)\<close>.\<close>

fun join :: "string \<Rightarrow> string list \<Rightarrow> string" where
  "join sep [] = []"
| "join sep [x] = x"
| "join sep (x # y # ys) = x @ sep @ join sep (y # ys)"

text \<open>\<^verbatim>\<open>s.startswith(p)\<close> and the substring test \<^verbatim>\<open>p in s\<close>.\<close>

fun startswith :: "string \<Rightarrow> string \<Rightarrow> bool" where
  "startswith s [] = True"
| "startswith [] (p # ps) = False"
| "startswith (c # cs) (p # ps) = (c = p \<and> startswith cs ps)"

fun contains :: "string \<Rightarrow> string \<Rightarrow> bool" where
  "contains p [] = (p = [])"
| "contains p (c # cs) = (startswith (c # cs) p \<or> contains p cs)"

text \<open>\<^verbatim>\<open>s.rstrip(chars)\<close>: every trailing character that is in \<^verbatim>\<open>chars\<close> goes.\<close>

definition rstrip_chars :: "string \<Rightarrow> string \<Rightarrow> string" where
  "rstrip_chars chars s = rev (dropWhile (\<lambda>c. c \<in> set chars) (rev s))"

text \<open>
  \<^verbatim>\<open>s.lower()\<close> on code points below 256: the ASCII capitals and the capitals of the
  Latin-1 block (192 to 222 without the multiplication sign 215) move up by 32.
\<close>

definition lower_char :: "char \<Rightarrow> char" where
  "lower_char c =
     (let n = (of_char c :: nat)
      in if (65 \<le> n \<and> n \<le> 90) \<or> (192 \<le> n \<and> n \<le> 222 \<and> n \<noteq> 215)
         then char_of (n + 32) else c)"

definition lower :: "string \<Rightarrow> string" where
  "lower s = map lower_char s"

definition isdigit :: "char \<Rightarrow> bool" where
  "isdigit c = (c \<in> set ''0123456789'')"

definition ishex :: "char \<Rightarrow> bool" where
  "ishex c = (c \<in> set ''0123456789ABCDEFabcdef'')"

text \<open>\<^verbatim>\<open>c.isascii() and c.isalpha()\<close>.\<close>

definition ascii_alpha :: "char \<Rightarrow> bool" where
  "ascii_alpha c =
     (c \<in> set ''abcdefghijklmnopqrstuvwxyzABCDEFGHIJKLMNOPQRSTUVWXYZ'')"

text \<open>\<^verbatim>\<open>int(s, 10)\<close> on a string of decimal digits.\<close>

definition decimal :: "string \<Rightarrow> nat" where
  "decimal s = foldl (\<lambda>n c. 10 * n + (of_char c - 48)) 0 s"

section \<open>Exceptions\<close>

text \<open>
  What the collaborators of the script raise: the interrupt of the user, or an error,
  an instance of a subclass of \<^verbatim>\<open>Exception\<close> given by the name of its class
  (\<^verbatim>\<open>ValueError\<close> from the URL parser, \<^verbatim>\<open>RuntimeError\<close> and \<^verbatim>\<open>OSError\<close> from the path
  operations, \<^verbatim>\<open>DownloadError\<close> and others from the download library). The libraries
  report failure in this way; \<^verbatim>\<open>SystemExit\<close> is raised by \<^verbatim>\<open>sys.exit\<close> in \<^verbatim>\<open>main\<close> only
  and is modelled as an end of the process, not as a value of this type.
\<close>

datatype exn = KeyboardInterrupt | Exception string

abbreviation ValueError :: exn where
  "ValueError \<equiv> Exception ''ValueError''"

abbreviation RuntimeError :: exn where
  "RuntimeError \<equiv> Exception ''RuntimeError''"

section \<open>The URL parser of the standard library\<close>

text \<open>
  \<^verbatim>\<open>urlparse(url).netloc\<close> is computed by \<^verbatim>\<open>urllib.parse.urlsplit\<close>, which is not part of
  the script. The model follows CPython 3.11, on a POSIX system. A host in square
  brackets is checked by \<^verbatim>\<open>_check_bracketed_host\<close>, with the \<^verbatim>\<open>ipaddress\<close> module; the
  check \<^verbatim>\<open>_checknetloc\<close> raises only when NFKC normalisation brings one of \<^verbatim>\<open>/?#@:\<close> into
  the host, which no code point below 256 does, so it has no branch here.
\<close>

text \<open>\<^verbatim>\<open>IPv4Address._parse_octet\<close> and \<^verbatim>\<open>IPv4Address(s)\<close>: does the constructor return?\<close>

definition parse_octet_ok :: "string \<Rightarrow> bool" where
  "parse_octet_ok octet_str =
     (octet_str \<noteq> [] \<and> list_all isdigit octet_str \<and> length octet_str \<le> 3
      \<and> \<not> (octet_str \<noteq> ''0'' \<and> hd octet_str = CHR ''0'')
      \<and> decimal octet_str \<le> 255)"

definition ipv4_ok :: "string \<Rightarrow> bool" where
  "ipv4_ok addr_str =
     (CHR ''/'' \<notin> set addr_str \<and> addr_str \<noteq> []
      \<and> (let octets = split_on CHR ''.'' addr_str
         in length octets = 4 \<and> list_all parse_octet_ok octets))"

text \<open>
  \<^verbatim>\<open>IPv6Address._parse_hextet\<close>: hexadecimal digits, at most four; on the empty string
  \<^verbatim>\<open>int('', 16)\<close> raises.
\<close>

definition parse_hextet_ok :: "string \<Rightarrow> bool" where
  "parse_hextet_ok hextet_str =
     (list_all ishex hextet_str \<and> length hextet_str \<le> 4 \<and> hextet_str \<noteq> [])"

text \<open>
  \<^verbatim>\<open>IPv6Address._ip_int_from_string\<close>, as far as it decides between returning and
  raising. An IPv4 suffix is replaced by the two hextets of its value, which are valid
  whatever the value is: the model puts \<^verbatim>\<open>0\<close> for each.
\<close>

definition ipv6_int_ok :: "string \<Rightarrow> bool" where
  "ipv6_int_ok ip_str =
     (if ip_str = [] then False
      else let parts0 = split_on CHR '':'' ip_str
      in if length parts0 < 3 then False
      else if CHR ''.'' \<in> set (last parts0) \<and> \<not> ipv4_ok (last parts0) then False
      else let parts = (if CHR ''.'' \<in> set (last parts0)
                        then butlast parts0 @ [''0'', ''0''] else parts0);
               n = length parts
      in if n > 9 then False
      else (case filter (\<lambda>i. parts ! i = []) [1 ..< n - 1] of
              [] \<Rightarrow> n = 8 \<and> hd parts \<noteq> [] \<and> last parts \<noteq> []
                    \<and> list_all parse_hextet_ok parts
            | [skip_index] \<Rightarrow>
                (let hi0 = skip_index;
                     lo0 = n - skip_index - 1
                 in if hd parts = [] \<and> hi0 - 1 \<noteq> 0 then False
                    else if last parts = [] \<and> lo0 - 1 \<noteq> 0 then False
                    else let parts_hi = (if hd parts = [] then hi0 - 1 else hi0);
                             parts_lo = (if last parts = [] then lo0 - 1 else lo0)
                    in if 8 \<le> parts_hi + parts_lo then False
                       else list_all parse_hextet_ok (take parts_hi parts)
                            \<and> list_all parse_hextet_ok (drop (n - parts_lo) parts))
            | _ \<Rightarrow> False))"

text \<open>\<^verbatim>\<open>IPv6Address(s)\<close>, with the scope id after \<^verbatim>\<open>%\<close> split off first.\<close>

definition ipv6_ok :: "string \<Rightarrow> bool" where
  "ipv6_ok addr_str =
     (CHR ''/'' \<notin> set addr_str
      \<and> (let addr = takeWhile (\<lambda>c. c \<noteq> CHR ''%'') addr_str;
             rest = dropWhile (\<lambda>c. c \<noteq> CHR ''%'') addr_str
         in (rest = [] \<or> (tl rest \<noteq> [] \<and> CHR ''%'' \<notin> set (tl rest)))
            \<and> ipv6_int_ok addr))"

text \<open>
  \<^verbatim>\<open>_check_bracketed_host\<close>: an IPvFuture literal must match
  \<^verbatim>\<open>\Av[a-fA-F0-9]+\..+\Z\<close>; anything else must be an IPv6 address, and an IPv4 address
  is refused.
\<close>

definition check_bracketed_host :: "string \<Rightarrow> bool" where
  "check_bracketed_host hostname =
     (if startswith hostname ''v''
      then (let digits = takeWhile ishex (tl hostname);
                rest = dropWhile ishex (tl hostname)
            in digits \<noteq> [] \<and> startswith rest ''.'' \<and> tl rest \<noteq> []
               \<and> CHR 0x0A \<notin> set (tl rest))
      else if ipv4_ok hostname then False
      else ipv6_ok hostname)"

definition scheme_chars :: string where
  "scheme_chars =
     ''abcdefghijklmnopqrstuvwxyzABCDEFGHIJKLMNOPQRSTUVWXYZ0123456789+-.''"

text \<open>
  \<^verbatim>\<open>urlsplit(url).netloc\<close>: leading C0 control characters and spaces are stripped, tab,
  carriage return and newline are removed everywhere, a scheme and its colon are cut
  off, and after \<^verbatim>\<open>//\<close> the host part runs to the first of \<^verbatim>\<open>/?#\<close>. Without \<^verbatim>\<open>//\<close> the
  host part is empty. Unbalanced brackets and a bad bracketed host raise
  \<^verbatim>\<open>ValueError\<close>.
\<close>

definition urlparse_netloc :: "string \<Rightarrow> exn + string" where
  "urlparse_netloc url0 =
     (let url1 = dropWhile (\<lambda>c. (of_char c :: nat) \<le> 32) url0;
          url2 = filter (\<lambda>c. c \<notin> {CHR 0x09, CHR 0x0D, CHR 0x0A}) url1;
          url = (case str_find CHR '':'' url2 of
                   None \<Rightarrow> url2
                 | Some i \<Rightarrow>
                     if 0 < i \<and> ascii_alpha (url2 ! 0)
                        \<and> list_all (\<lambda>c. c \<in> set scheme_chars) (take i url2)
                     then drop (i + 1) url2 else url2)
      in if take 2 url = ''//''
         then (let netloc = takeWhile (\<lambda>c. c \<notin> set ''/?#'') (drop 2 url);
                   opening = (CHR ''['' \<in> set netloc);
                   closing = (CHR '']'' \<in> set netloc)
               in if (opening \<and> \<not> closing) \<or> (closing \<and> \<not> opening)
                  then Inl ValueError
                  else if opening \<and> closing
                          \<and> \<not> check_bracketed_host
                                (takeWhile (\<lambda>c. c \<noteq> CHR '']'')
                                   (tl (dropWhile (\<lambda>c. c \<noteq> CHR ''['') netloc)))
                  then Inl ValueError
                  else Inr netloc)
         else Inr [])"

section \<open>Platform detection\<close>

text \<open>
  \<^verbatim>\<open>
  def detect_platform(url: str) -> str:
      netloc = urlparse(url).netloc.lower()
      if any(p in netloc for p in ("youtube.com", "youtu.be", "youtube-nocookie.com")):
          return "youtube"
      if any(p in netloc for p in ("instagram.com", "instagr.am")):
          return "instagram"
      return "other"
  \<close>
  An exception of the parser leaves the function as it is.
\<close>

definition detect_platform :: "string \<Rightarrow> exn + string" where
  "detect_platform url =
     (case urlparse_netloc url of
        Inl e \<Rightarrow> Inl e
      | Inr host \<Rightarrow>
          (let netloc = lower host
           in if list_ex (\<lambda>p. contains p netloc)
                   [''youtube.com'', ''youtu.be'', ''youtube-nocookie.com'']
              then Inr ''youtube''
              else if list_ex (\<lambda>p. contains p netloc) [''instagram.com'', ''instagr.am'']
              then Inr ''instagram''
              else Inr ''other''))"

section \<open>Paths of the standard library\<close>

text \<open>
  \<^verbatim>\<open>pathlib.Path\<close> on a POSIX system, after CPython 3.11: a path is its root (empty,
  \<^verbatim>\<open>/\<close> or \<^verbatim>\<open>//\<close>) and the list of its components. Python keeps the root as first
  element of \<^verbatim>\<open>_parts\<close>; here \<open>names\<close> holds the components only.
\<close>

record posix_path =
  root :: string
  names :: "string list"

text \<open>\<^verbatim>\<open>_PosixFlavour.splitroot\<close>: exactly two leading slashes are kept as they are.\<close>

definition splitroot :: "string \<Rightarrow> string \<times> string" where
  "splitroot part =
     (if part \<noteq> [] \<and> hd part = CHR ''/''
      then (let stripped_part = dropWhile (\<lambda>c. c = CHR ''/'') part
            in (if length part - length stripped_part = 2 then ''//'' else ''/'',
                stripped_part))
      else ([], part))"

text \<open>
  \<^verbatim>\<open>_Flavour.parse_parts\<close>: Python walks the arguments from the last to the first and
  stops at the first one that has a root; empty components and \<^verbatim>\<open>.\<close> are dropped.
\<close>

fun parse_parts :: "string list \<Rightarrow> posix_path" where
  "parse_parts [] = \<lparr>root = [], names = []\<rparr>"
| "parse_parts (part # later) =
     (let p = parse_parts later
      in if root p \<noteq> [] then p
         else if part = [] then p
         else (case splitroot part of
                 (r, rel) \<Rightarrow>
                   \<lparr>root = r,
                    names = filter (\<lambda>x. x \<noteq> [] \<and> x \<noteq> ''.'') (split_on CHR ''/'' rel)
                            @ names p\<rparr>))"

text \<open>\<^verbatim>\<open>Path(s)\<close>, \<^verbatim>\<open>str(p)\<close> and \<^verbatim>\<open>p / s\<close> (\<^verbatim>\<open>join_parsed_parts\<close> without a drive).\<close>

definition Path :: "string \<Rightarrow> posix_path" where
  "Path s = parse_parts [s]"

definition path_str :: "posix_path \<Rightarrow> string" where
  "path_str p =
     (let s = root p @ join ''/'' (names p) in if s = [] then ''.'' else s)"

definition joinpath :: "posix_path \<Rightarrow> string \<Rightarrow> posix_path" where
  "joinpath p s =
     (let p2 = parse_parts [s]
      in if root p2 \<noteq> [] then p2
         else \<lparr>root = root p, names = names p @ names p2\<rparr>)"

section \<open>The collaborators\<close>

text \<open>
  The values of the options mapping given to the download library: a string, a truth
  value, or the list of post-processor dictionaries, each a list of key and value in
  the order of the literal.
\<close>

datatype opt_value =
  Str string
| Bool bool
| Dicts "(string \<times> string) list list"

type_synonym options = "string \<rightharpoonup> opt_value"

text \<open>
  What is outside the script and decides how a run goes:
  \<^item> \<open>os_expanduser\<close> is \<^verbatim>\<open>os.path.expanduser\<close> on a first component that starts with
    \<^verbatim>\<open>~\<close>; it answers from the environment and the password database, and gives its
    argument back when it finds no home directory;
  \<^item> \<open>mkdir_raises\<close> says whether \<^verbatim>\<open>Path.mkdir(parents=True, exist_ok=True)\<close> raises on
    the path with this string. When the call returns, the directory exists: it was
    there already, or it has been created with the parents it lacked;
  \<^item> \<open>ydl_raises\<close> says whether \<^verbatim>\<open>with yt_dlp.YoutubeDL(opts) as ydl: ydl.download(urls)\<close>
    raises.
\<close>

record env =
  os_expanduser :: "string \<Rightarrow> string"
  mkdir_raises :: "string \<Rightarrow> exn option"
  ydl_raises :: "options \<Rightarrow> string list \<Rightarrow> exn option"

text \<open>
  \<^verbatim>\<open>Path.expanduser\<close>: only a relative path whose first component starts with \<^verbatim>\<open>~\<close>
  changes; \<^verbatim>\<open>RuntimeError\<close> when no home directory is found.
\<close>

definition expanduser :: "env \<Rightarrow> posix_path \<Rightarrow> exn + posix_path" where
  "expanduser E p =
     (if root p = [] \<and> names p \<noteq> [] \<and> take 1 (hd (names p)) = ''~''
      then (let homedir = os_expanduser E (hd (names p))
            in if take 1 homedir = ''~'' then Inl RuntimeError
               else Inr (parse_parts (homedir # tl (names p))))
      else Inr p)"

text \<open>
  The lines the script writes, by what they say and the value they include:
  the platform, the output directory, the end of the download, and the message of
  \<^verbatim>\<open>sys.exit\<close> after an interrupt.
\<close>

datatype message =
  Msg_platform string
| Msg_saving_to string
| Msg_finished
| Msg_aborted

text \<open>
  What a run does to the outside, in the order it does it: the call of
  \<^verbatim>\<open>mkdir(parents=True, exist_ok=True)\<close> on a path, a printed line, and the call of the
  download library with its options and its list of URLs.
\<close>

datatype event =
  Mkdir string
| Print message
| YdlDownload options "string list"

section \<open>The download routine\<close>

text \<open>
  The output template, lines 54 to 56 of the script:
  \<^verbatim>\<open>
  template = (custom_name or "%(title)s").strip()
  template = safe_title(template)
  template = str(out_path / f"{template}.%(ext)s")
  \<close>
  \<^verbatim>\<open>None\<close> and the empty string are the two values of \<^verbatim>\<open>custom_name\<close> that \<^verbatim>\<open>or\<close> takes
  as false.
\<close>

definition template :: "posix_path \<Rightarrow> string option \<Rightarrow> string" where
  "template out_path custom_name =
     (let t = strip (case custom_name of
                       None \<Rightarrow> ''%(title)s''
                     | Some n \<Rightarrow> if n = [] then ''%(title)s'' else n);
          t = safe_title t
      in path_str (joinpath out_path (t @ ''.%(ext)s'')))"

text \<open>
  The options, lines 59 to 86 of the script: the dictionary literal, then the format
  selection, where the audio branch updates two keys and the other branches set
  \<^verbatim>\<open>format\<close>.
\<close>

definition ydl_opts :: "string \<Rightarrow> bool \<Rightarrow> string \<Rightarrow> options" where
  "ydl_opts tmpl audio_only quality =
     (let opts = [''outtmpl'' \<mapsto> Str tmpl,
                  ''ignoreerrors'' \<mapsto> Bool False,
                  ''quiet'' \<mapsto> Bool False,
                  ''no_warnings'' \<mapsto> Bool True]
      in if audio_only
         then opts(''format'' \<mapsto> Str ''bestaudio/best'',
                   ''postprocessors'' \<mapsto>
                     Dicts [[(''key'', ''FFmpegExtractAudio''),
                             (''preferredcodec'', ''mp3''),
                             (''preferredquality'', ''192'')]])
         else if quality = ''best''
         then opts(''format'' \<mapsto>
                     Str ''bestvideo[ext=mp4]+bestaudio[ext=m4a]/best[ext=mp4]/best'')
         else if quality = ''worst''
         then opts(''format'' \<mapsto> Str ''worst'')
         else (let height = rstrip_chars ''p'' quality
               in opts(''format'' \<mapsto>
                         Str (''bestvideo[height<='' @ height @ ''][ext=mp4]+bestaudio[ext=m4a]''
                              @ ''/best[height<='' @ height @ '']/best''))))"

text \<open>
  \<^verbatim>\<open>download(url, *, audio_only, quality, out_dir, custom_name)\<close>: the events of the run
  and how it ends, \<open>Inr ()\<close> for a return and \<open>Inl e\<close> for the exception that leaves
  the function. The platform is computed before the first line is printed, so that an
  exception of the URL parser ends the run before anything is printed and before the
  download library is called.
\<close>

definition download ::
  "env \<Rightarrow> string \<Rightarrow> bool \<Rightarrow> string \<Rightarrow> string \<Rightarrow> string option
     \<Rightarrow> event list \<times> (exn + unit)" where
  "download E url audio_only quality out_dir custom_name =
     (case expanduser E (Path out_dir) of
        Inl e \<Rightarrow> ([], Inl e)
      | Inr out_path \<Rightarrow>
          (case mkdir_raises E (path_str out_path) of
             Some e \<Rightarrow> ([Mkdir (path_str out_path)], Inl e)
           | None \<Rightarrow>
               (let opts = ydl_opts (template out_path custom_name) audio_only quality
                in case detect_platform url of
                     Inl e \<Rightarrow> ([Mkdir (path_str out_path)], Inl e)
                   | Inr platform \<Rightarrow>
                       (let evs = [Mkdir (path_str out_path),
                                   Print (Msg_platform platform),
                                   Print (Msg_saving_to (path_str out_path)),
                                   YdlDownload opts [url]]
                        in case ydl_raises E opts [url] of
                             Some e \<Rightarrow> (evs, Inl e)
                           | None \<Rightarrow> (evs @ [Print Msg_finished], Inr ())))))"

text \<open>The options of the calls of the download library in a list of events.\<close>

fun handed_options :: "event list \<Rightarrow> options list" where
  "handed_options [] = []"
| "handed_options (YdlDownload opts urls # evs) = opts # handed_options evs"
| "handed_options (ev # evs) = handed_options evs"

section \<open>The command line\<close>

text \<open>
  The namespace that \<^verbatim>\<open>argparse\<close> returns; \<^verbatim>\<open>--quality\<close> defaults to \<^verbatim>\<open>best\<close>,
  \<^verbatim>\<open>--output-dir\<close> to \<^verbatim>\<open>downloads\<close>, and \<^verbatim>\<open>--name\<close> to \<^verbatim>\<open>None\<close>.
\<close>

record args =
  args_url :: string
  args_audio_only :: bool
  args_quality :: string
  args_output_dir :: string
  args_name :: "string option"

text \<open>
  How the process ends: \<^verbatim>\<open>main\<close> returns and the status is 0; \<^verbatim>\<open>sys.exit\<close> with a
  message writes the message to the standard error stream and the status is 1; an
  exception that nothing catches gives a traceback and the status 1.
\<close>

datatype process_end =
  Exit_success
| Exit_message message
| Traceback exn

fun exit_status :: "process_end \<Rightarrow> nat" where
  "exit_status Exit_success = 0"
| "exit_status (Exit_message m) = 1"
| "exit_status (Traceback e) = 1"

text \<open>
  \<^verbatim>\<open>
  try:
      download(args.url, audio_only=args.audio_only, quality=args.quality,
               out_dir=args.output_dir, custom_name=args.name)
  except KeyboardInterrupt:
      sys.exit("\n... aborted by user")
  \<close>
  The parsing of the command line by \<^verbatim>\<open>argparse\<close> comes before and is given by its
  result.
\<close>

definition main :: "env \<Rightarrow> args \<Rightarrow> event list \<times> process_end" where
  "main E a =
     (case download E (args_url a) (args_audio_only a) (args_quality a)
             (args_output_dir a) (args_name a) of
        (evs, Inl KeyboardInterrupt) \<Rightarrow> (evs, Exit_message Msg_aborted)
      | (evs, Inl (Exception c)) \<Rightarrow> (evs, Traceback (Exception c))
      | (evs, Inr u) \<Rightarrow> (evs, Exit_success))"

section \<open>Reference readings and sample environments\<close>

text \<open>
  The output template as the specification words it: the sanitized custom name if one
  was provided, else the title placeholder, joined under the output directory with
  the extension placeholder. The empty string is a provided name in this reading.
\<close>

definition template_as_stated :: "posix_path \<Rightarrow> string option \<Rightarrow> string" where
  "template_as_stated out_path custom_name =
     path_str (joinpath out_path
       ((case custom_name of
           None \<Rightarrow> ''%(title)s''
         | Some n \<Rightarrow> underscore_illegal n) @ ''.%(ext)s''))"

text \<open>
  Three environments to run the script in: one where every call returns (the home
  directory of the user is \<^verbatim>\<open>/home/user\<close>, no other user is known), one where the user
  interrupts the download, and one where the download library fails.
\<close>

definition env_ok :: env where
  "env_ok = \<lparr>os_expanduser = (\<lambda>p. if p = ''~'' then ''/home/user'' else p),
             mkdir_raises = (\<lambda>p. None),
             ydl_raises = (\<lambda>opts urls. None)\<rparr>"

definition env_interrupt :: env where
  "env_interrupt = env_ok\<lparr>ydl_raises := (\<lambda>opts urls. Some KeyboardInterrupt)\<rparr>"

definition env_error :: env where
  "env_error = env_ok\<lparr>ydl_raises := (\<lambda>opts urls. Some (Exception ''DownloadError''))\<rparr>"

section \<open>Properties of the string functions\<close>

lemma re_sub_class_single:
  "re_sub_class cls [r] s = map (\<lambda>c. if c \<in> set cls then r else c) s"
  by (induction s) auto

lemma set_strip_subset: "set (strip s) \<subseteq> set s"
proof -
  have "set (rstrip u) \<subseteq> set u" for u
    using set_dropWhileD [of _ isspace "rev u"] by (auto simp: rstrip_def)
  moreover have "set (lstrip s) \<subseteq> set s"
    using set_dropWhileD [of _ isspace s] by (auto simp: lstrip_def)
  ultimately show ?thesis unfolding strip_def by blast
qed

lemma underscore_legal: "CHR ''_'' \<notin> set illegal_chars"
  by (simp add: illegal_chars_def)

lemma strip_no_outer_space:
  "strip s = [] \<or> (\<not> isspace (hd (strip s)) \<and> \<not> isspace (last (strip s)))"
proof (cases "strip s = []")
  case True
  then show ?thesis by simp
next
  case False
  let ?l = "lstrip s"
  from False have ne: "dropWhile isspace (rev ?l) \<noteq> []"
    by (simp add: strip_def rstrip_def)
  then have a: "\<not> isspace (hd (dropWhile isspace (rev ?l)))"
    by (rule hd_dropWhile)
  have lastp: "last (strip s) = hd (dropWhile isspace (rev ?l))"
    using ne by (simp add: strip_def rstrip_def last_rev)
  from ne have lne: "?l \<noteq> []" by auto
  then have b: "\<not> isspace (hd ?l)"
    unfolding lstrip_def by (rule hd_dropWhile)
  have "\<exists>zs. ?l = rev (dropWhile isspace (rev ?l)) @ zs"
    by (metis append_take_drop_id dropWhile_eq_drop rev_append rev_rev_ident)
  then obtain zs where zs: "?l = strip s @ zs"
    by (auto simp: strip_def rstrip_def)
  with False have "hd (strip s) = hd ?l"
    by (metis hd_append2)
  with a b lastp show ?thesis by simp
qed

section \<open>The sanitizer: claim C1\<close>

text \<open>
  C1 as the specification words it: the sanitizer removes every character of the set
  \<^verbatim>\<open><>:"/\|?*\<close>, leaves the others as they are and trims the result. Read as deletion
  this is \<^const>\<open>delete_illegal\<close>, and the code differs from it: on the title \<^verbatim>\<open>a:b\<close>
  the code returns \<^verbatim>\<open>a_b\<close>, deletion gives \<^verbatim>\<open>ab\<close>.
\<close>

theorem safe_title_deletes_counterexample:
  "safe_title ''a:b'' = ''a_b'' \<and> delete_illegal ''a:b'' = ''ab''
   \<and> safe_title ''a:b'' \<noteq> delete_illegal ''a:b''"
  by (simp add: safe_title_def delete_illegal_def strip_def lstrip_def rstrip_def
      isspace_def illegal_chars_def)

text \<open>
  C1, amended: for every title the sanitizer puts one underscore in the place of every
  character of the set \<^verbatim>\<open><>:"/\|?*\<close>, leaves every other character (the spaces between
  words too) where it is, and trims leading and trailing whitespace. So the result
  holds none of the nine characters, and it neither starts nor ends with whitespace.
\<close>

theorem safe_title_underscores:
  "safe_title title = underscore_illegal title
   \<and> set (safe_title title) \<inter> set illegal_chars = {}
   \<and> (safe_title title = [] \<or>
        (\<not> isspace (hd (safe_title title)) \<and> \<not> isspace (last (safe_title title))))"
proof -
  have eq: "safe_title title = underscore_illegal title"
    by (simp add: safe_title_def underscore_illegal_def re_sub_class_single)
  have "set (safe_title title)
          \<subseteq> set (map (\<lambda>c. if c \<in> set illegal_chars then CHR ''_'' else c) title)"
    unfolding eq underscore_illegal_def by (rule set_strip_subset)
  then have legal: "set (safe_title title) \<inter> set illegal_chars = {}"
    using underscore_legal by (auto split: if_splits)
  have "safe_title title = [] \<or>
        (\<not> isspace (hd (safe_title title)) \<and> \<not> isspace (last (safe_title title)))"
    unfolding safe_title_def by (rule strip_no_outer_space)
  with eq legal show ?thesis by blast
qed

theorem safe_title_underscores_witness:
  "safe_title '' a:b  c? '' = ''a_b  c_''
   \<and> underscore_illegal '' a:b  c? '' = ''a_b  c_''
   \<and> set (safe_title '' a:b  c? '') \<inter> set illegal_chars = {}
   \<and> \<not> isspace (hd (safe_title '' a:b  c? ''))
   \<and> \<not> isspace (last (safe_title '' a:b  c? ''))"
proof -
  have v: "safe_title '' a:b  c? '' = ''a_b  c_''"
    by (simp add: safe_title_def strip_def lstrip_def rstrip_def isspace_def
        illegal_chars_def)
  then have ne: "safe_title '' a:b  c? '' \<noteq> []"
    by simp
  from safe_title_underscores [of "'' a:b  c? ''"] ne v show ?thesis
    by metis
qed

section \<open>Platform detection: claims C5 and C6\<close>

lemma startswith_iff: "startswith s p \<longleftrightarrow> (\<exists>b. s = p @ b)"
  by (induction s p rule: startswith.induct) auto

text \<open>\<^const>\<open>contains\<close> is the substring test: \<open>p\<close> occurs somewhere in \<open>s\<close>.\<close>

lemma contains_iff: "contains p s \<longleftrightarrow> (\<exists>a b. s = a @ p @ b)"
proof (induction s)
  case Nil
  then show ?case by auto
next
  case (Cons c cs)
  show ?case
  proof
    assume "contains p (c # cs)"
    then consider "startswith (c # cs) p" | "contains p cs"
      by auto
    then show "\<exists>a b. c # cs = a @ p @ b"
    proof cases
      case 1
      then obtain b where "c # cs = p @ b"
        by (auto simp: startswith_iff)
      then have "c # cs = [] @ p @ b"
        by simp
      then show ?thesis by blast
    next
      case 2
      with Cons.IH obtain a b where "cs = a @ p @ b"
        by blast
      then have "c # cs = (c # a) @ p @ b"
        by simp
      then show ?thesis by blast
    qed
  next
    assume "\<exists>a b. c # cs = a @ p @ b"
    then obtain a b where ab: "c # cs = a @ p @ b"
      by blast
    show "contains p (c # cs)"
    proof (cases a)
      case Nil
      with ab have "startswith (c # cs) p"
        by (auto simp: startswith_iff)
      then show ?thesis by simp
    next
      case (Cons x a')
      with ab have "cs = a' @ p @ b"
        by simp
      with Cons.IH have "contains p cs"
        by blast
      then show ?thesis by simp
    qed
  qed
qed

text \<open>Lower-casing the host keeps every occurrence of a pattern that is lower case.\<close>

lemma contains_lower:
  assumes "contains p s" and "lower p = p"
  shows "contains p (lower s)"
proof -
  from assms(1) obtain a b where "s = a @ p @ b"
    by (auto simp: contains_iff)
  then have "lower s = lower a @ lower p @ lower b"
    by (simp add: lower_def)
  with assms(2) show ?thesis
    by (auto simp: contains_iff)
qed

lemma lower_instagram:
  "lower ''instagram.com'' = ''instagram.com''"
  "lower ''instagr.am'' = ''instagr.am''"
  by (simp_all add: lower_def lower_char_def)

text \<open>
  C6: for every URL whose host component, lower-cased, contains \<^verbatim>\<open>youtube.com\<close>,
  \<^verbatim>\<open>youtu.be\<close> or \<^verbatim>\<open>youtube-nocookie.com\<close>, platform detection returns \<^verbatim>\<open>youtube\<close>.
  The host component is what the URL parser returns for the URL.
\<close>

theorem detect_platform_youtube:
  assumes "urlparse_netloc url = Inr host"
    and "contains ''youtube.com'' (lower host) \<or> contains ''youtu.be'' (lower host)
         \<or> contains ''youtube-nocookie.com'' (lower host)"
  shows "detect_platform url = Inr ''youtube''"
  using assms by (auto simp: detect_platform_def Let_def)

theorem detect_platform_youtube_witness:
  "urlparse_netloc ''HTTPS://WWW.YouTube.com/watch?v=x'' = Inr ''WWW.YouTube.com''
   \<and> contains ''youtube.com'' (lower ''WWW.YouTube.com'')
   \<and> detect_platform ''HTTPS://WWW.YouTube.com/watch?v=x'' = Inr ''youtube''"
proof -
  have h: "urlparse_netloc ''HTTPS://WWW.YouTube.com/watch?v=x'' = Inr ''WWW.YouTube.com''"
    by (simp add: urlparse_netloc_def Let_def ascii_alpha_def scheme_chars_def)
  have c: "contains ''youtube.com'' (lower ''WWW.YouTube.com'')"
    by code_simp
  from detect_platform_youtube [OF h] c h show ?thesis
    by blast
qed

text \<open>
  C5 as the specification words it: for every URL whose host contains
  \<^verbatim>\<open>instagram.com\<close> or \<^verbatim>\<open>instagr.am\<close>, detection returns \<^verbatim>\<open>instagram\<close>. The YouTube
  patterns are tried first, so a host that holds one of them too is a YouTube host
  for the code: \<^verbatim>\<open>youtube.com.instagram.com\<close> contains \<^verbatim>\<open>instagram.com\<close> and the answer
  is \<^verbatim>\<open>youtube\<close>.
\<close>

theorem detect_platform_instagram_counterexample:
  "urlparse_netloc ''https://youtube.com.instagram.com/reel/abc''
     = Inr ''youtube.com.instagram.com''
   \<and> contains ''instagram.com'' ''youtube.com.instagram.com''
   \<and> detect_platform ''https://youtube.com.instagram.com/reel/abc'' = Inr ''youtube''
   \<and> detect_platform ''https://youtube.com.instagram.com/reel/abc'' \<noteq> Inr ''instagram''"
  by (simp add: detect_platform_def urlparse_netloc_def Let_def ascii_alpha_def
      scheme_chars_def lower_def lower_char_def)

text \<open>
  C5, amended: for every URL whose host component contains \<^verbatim>\<open>instagram.com\<close> or
  \<^verbatim>\<open>instagr.am\<close>, and whose lower-cased host contains none of \<^verbatim>\<open>youtube.com\<close>,
  \<^verbatim>\<open>youtu.be\<close> and \<^verbatim>\<open>youtube-nocookie.com\<close>, platform detection returns \<^verbatim>\<open>instagram\<close>.
\<close>

theorem detect_platform_instagram:
  assumes "urlparse_netloc url = Inr host"
    and "contains ''instagram.com'' host \<or> contains ''instagr.am'' host"
    and "\<not> contains ''youtube.com'' (lower host)"
    and "\<not> contains ''youtu.be'' (lower host)"
    and "\<not> contains ''youtube-nocookie.com'' (lower host)"
  shows "detect_platform url = Inr ''instagram''"
proof -
  from assms(2)
  have "contains ''instagram.com'' (lower host) \<or> contains ''instagr.am'' (lower host)"
    using contains_lower lower_instagram by blast
  with assms(1,3,4,5) show ?thesis
    by (auto simp: detect_platform_def Let_def)
qed

theorem detect_platform_instagram_witness:
  "urlparse_netloc ''https://www.instagram.com/reel/abc'' = Inr ''www.instagram.com''
   \<and> contains ''instagram.com'' ''www.instagram.com''
   \<and> \<not> contains ''youtube.com'' (lower ''www.instagram.com'')
   \<and> \<not> contains ''youtu.be'' (lower ''www.instagram.com'')
   \<and> \<not> contains ''youtube-nocookie.com'' (lower ''www.instagram.com'')
   \<and> detect_platform ''https://www.instagram.com/reel/abc'' = Inr ''instagram''"
proof -
  have h: "urlparse_netloc ''https://www.instagram.com/reel/abc'' = Inr ''www.instagram.com''"
    by (simp add: urlparse_netloc_def Let_def ascii_alpha_def scheme_chars_def)
  have c: "contains ''instagram.com'' ''www.instagram.com''"
    by simp
  have n1: "\<not> contains ''youtube.com'' (lower ''www.instagram.com'')"
    and n2: "\<not> contains ''youtu.be'' (lower ''www.instagram.com'')"
    and n3: "\<not> contains ''youtube-nocookie.com'' (lower ''www.instagram.com'')"
    by (simp_all add: lower_def lower_char_def)
  from detect_platform_instagram [OF h _ n1 n2 n3] c h n1 n2 n3 show ?thesis
    by blast
qed

section \<open>Properties of the download routine\<close>

lemma split_on_absent: "c \<notin> set s \<Longrightarrow> split_on c s = [s]"
  by (induction s) auto

text \<open>
  The download library is called at most once in a run, and only when the three steps
  before it return: the expansion of the output directory, the creation of the
  directory, the detection of the platform.
\<close>

lemma handed_options_download:
  "handed_options (fst (download E url audio_only quality out_dir custom_name)) =
     (case expanduser E (Path out_dir) of
        Inl e \<Rightarrow> []
      | Inr out_path \<Rightarrow>
          (case mkdir_raises E (path_str out_path) of
             Some e \<Rightarrow> []
           | None \<Rightarrow>
               (case detect_platform url of
                  Inl e \<Rightarrow> []
                | Inr platform \<Rightarrow>
                    [ydl_opts (template out_path custom_name) audio_only quality])))"
  by (simp add: download_def Let_def split: sum.splits option.splits)

lemma handed_options_member:
  assumes "opts \<in> set (handed_options (fst (download E url audio_only quality out_dir custom_name)))"
  shows "\<exists>out_path. expanduser E (Path out_dir) = Inr out_path
           \<and> opts = ydl_opts (template out_path custom_name) audio_only quality"
proof (cases "expanduser E (Path out_dir)")
  case (Inl e)
  with assms show ?thesis
    by (simp add: handed_options_download)
next
  case (Inr out_path)
  with assms have "opts = ydl_opts (template out_path custom_name) audio_only quality"
    by (simp add: handed_options_download split: option.splits sum.splits)
  with Inr show ?thesis
    by simp
qed

text \<open>The default output directory \<^verbatim>\<open>downloads\<close> and the default template.\<close>

lemma Path_downloads: "Path ''downloads'' = \<lparr>root = [], names = [''downloads'']\<rparr>"
  by (simp add: Path_def splitroot_def)

lemma expanduser_downloads: "expanduser E (Path ''downloads'') = Inr (Path ''downloads'')"
  by (simp add: expanduser_def Path_downloads)

lemma path_str_downloads: "path_str (Path ''downloads'') = ''downloads''"
  by (simp add: Path_downloads path_str_def)

lemma template_downloads: "template (Path ''downloads'') None = ''downloads/%(title)s.%(ext)s''"
  by (simp add: template_def Path_downloads safe_title_def strip_def lstrip_def rstrip_def isspace_def illegal_chars_def joinpath_def splitroot_def path_str_def)


text \<open>A run in the environment where nothing fails.\<close>

lemma download_env_ok:
  "download env_ok ''https://youtu.be/x'' audio_only quality ''downloads'' None =
     ([Mkdir ''downloads'', Print (Msg_platform ''youtube''),
       Print (Msg_saving_to ''downloads''),
       YdlDownload (ydl_opts ''downloads/%(title)s.%(ext)s'' audio_only quality)
         [''https://youtu.be/x''],
       Print Msg_finished], Inr ())"
proof -
  have d: "detect_platform ''https://youtu.be/x'' = Inr ''youtube''"
    by (simp add: detect_platform_def urlparse_netloc_def Let_def ascii_alpha_def
        scheme_chars_def lower_def lower_char_def)
  show ?thesis
    by (simp add: download_def expanduser_downloads path_str_downloads template_downloads
        d env_ok_def)
qed

section \<open>Format selection: claims C2 and C3\<close>

text \<open>
  C2: for every quality token, when the audio-only flag is true the options select the
  best audio stream, falling back to the best stream overall
  (\<^verbatim>\<open>bestaudio/best\<close>), and ask for one post-processing step, the extraction of the audio
  into the codec \<^verbatim>\<open>mp3\<close> at the quality \<^verbatim>\<open>192\<close>. The options do not depend on the
  quality token, and they are the options of every call of the download library in a
  run with the flag set.
\<close>

theorem audio_only_options:
  "ydl_opts tmpl True quality ''format'' = Some (Str ''bestaudio/best'')
   \<and> ydl_opts tmpl True quality ''postprocessors''
       = Some (Dicts [[(''key'', ''FFmpegExtractAudio''), (''preferredcodec'', ''mp3''),
                       (''preferredquality'', ''192'')]])
   \<and> ydl_opts tmpl True quality = ydl_opts tmpl True quality'
   \<and> (\<forall>opts \<in> set (handed_options
                      (fst (download E url True quality out_dir custom_name))).
         opts ''format'' = Some (Str ''bestaudio/best'')
         \<and> opts ''postprocessors''
             = Some (Dicts [[(''key'', ''FFmpegExtractAudio''), (''preferredcodec'', ''mp3''),
                             (''preferredquality'', ''192'')]]))"
proof -
  have a: "ydl_opts t True q ''format'' = Some (Str ''bestaudio/best'')" for t q
    by (simp add: ydl_opts_def)
  have b: "ydl_opts t True q ''postprocessors''
       = Some (Dicts [[(''key'', ''FFmpegExtractAudio''), (''preferredcodec'', ''mp3''),
                       (''preferredquality'', ''192'')]])" for t q
    by (simp add: ydl_opts_def)
  have c: "ydl_opts tmpl True quality = ydl_opts tmpl True quality'"
    by (simp add: ydl_opts_def)
  have d: "opts ''format'' = Some (Str ''bestaudio/best'')
         \<and> opts ''postprocessors''
             = Some (Dicts [[(''key'', ''FFmpegExtractAudio''), (''preferredcodec'', ''mp3''),
                             (''preferredquality'', ''192'')]])"
    if "opts \<in> set (handed_options (fst (download E url True quality out_dir custom_name)))"
    for opts
    using handed_options_member [OF that] a b by blast
  from a b c d show ?thesis
    by blast
qed

theorem audio_only_options_witness:
  "handed_options (fst (download env_ok ''https://youtu.be/x'' True ''720p'' ''downloads'' None))
     = [ydl_opts ''downloads/%(title)s.%(ext)s'' True ''720p'']
   \<and> ydl_opts ''downloads/%(title)s.%(ext)s'' True ''720p'' ''format''
       = Some (Str ''bestaudio/best'')
   \<and> ydl_opts ''downloads/%(title)s.%(ext)s'' True ''720p'' ''postprocessors''
       = Some (Dicts [[(''key'', ''FFmpegExtractAudio''), (''preferredcodec'', ''mp3''),
                       (''preferredquality'', ''192'')]])
   \<and> ydl_opts ''downloads/%(title)s.%(ext)s'' True ''720p''
       = ydl_opts ''downloads/%(title)s.%(ext)s'' True ''worst''"
proof -
  have h: "handed_options
             (fst (download env_ok ''https://youtu.be/x'' True ''720p'' ''downloads'' None))
           = [ydl_opts ''downloads/%(title)s.%(ext)s'' True ''720p'']"
    by (simp add: download_env_ok)
  from audio_only_options [of "''downloads/%(title)s.%(ext)s''" "''720p''" "''worst''"
      env_ok "''https://youtu.be/x''" "''downloads''" None] h
  show ?thesis
    by blast
qed

text \<open>
  C3: with the audio-only flag false and the quality token \<^verbatim>\<open>720p\<close>, the trailing
  \<^verbatim>\<open>p\<close> is stripped to give the height 720, and the format selector has three tiers
  between its slashes, in this order: the best mp4 video of height at most 720 with
  the best m4a audio, the best stream of height at most 720, the best stream. It is
  the selector of every call of the download library in such a run.
\<close>

theorem format_720p:
  "rstrip_chars ''p'' ''720p'' = ''720''
   \<and> ydl_opts tmpl False ''720p'' ''format''
       = Some (Str ''bestvideo[height<=720][ext=mp4]+bestaudio[ext=m4a]/best[height<=720]/best'')
   \<and> split_on CHR ''/''
        ''bestvideo[height<=720][ext=mp4]+bestaudio[ext=m4a]/best[height<=720]/best''
       = [''bestvideo[height<=720][ext=mp4]+bestaudio[ext=m4a]'', ''best[height<=720]'',
          ''best'']
   \<and> (\<forall>opts \<in> set (handed_options
                      (fst (download E url False ''720p'' out_dir custom_name))).
         opts ''format''
           = Some (Str ''bestvideo[height<=720][ext=mp4]+bestaudio[ext=m4a]/best[height<=720]/best''))"
proof -
  have r: "rstrip_chars ''p'' ''720p'' = ''720''"
    by (simp add: rstrip_chars_def)
  have f: "ydl_opts t False ''720p'' ''format''
       = Some (Str ''bestvideo[height<=720][ext=mp4]+bestaudio[ext=m4a]/best[height<=720]/best'')"
    for t
    by (simp add: ydl_opts_def r)
  have s: "split_on CHR ''/''
        ''bestvideo[height<=720][ext=mp4]+bestaudio[ext=m4a]/best[height<=720]/best''
       = [''bestvideo[height<=720][ext=mp4]+bestaudio[ext=m4a]'', ''best[height<=720]'',
          ''best'']"
    by simp
  have d: "opts ''format''
           = Some (Str ''bestvideo[height<=720][ext=mp4]+bestaudio[ext=m4a]/best[height<=720]/best'')"
    if "opts \<in> set (handed_options (fst (download E url False ''720p'' out_dir custom_name)))"
    for opts
    using handed_options_member [OF that] f by blast
  from r f s d show ?thesis
    by blast
qed

theorem format_720p_witness:
  "handed_options (fst (download env_ok ''https://youtu.be/x'' False ''720p'' ''downloads'' None))
     = [ydl_opts ''downloads/%(title)s.%(ext)s'' False ''720p'']
   \<and> ydl_opts ''downloads/%(title)s.%(ext)s'' False ''720p'' ''format''
       = Some (Str ''bestvideo[height<=720][ext=mp4]+bestaudio[ext=m4a]/best[height<=720]/best'')"
proof -
  have h: "handed_options
             (fst (download env_ok ''https://youtu.be/x'' False ''720p'' ''downloads'' None))
           = [ydl_opts ''downloads/%(title)s.%(ext)s'' False ''720p'']"
    by (simp add: download_env_ok)
  from format_720p [of "''downloads/%(title)s.%(ext)s''" env_ok "''https://youtu.be/x''"
      "''downloads''" None] h
  show ?thesis
    by blast
qed

section \<open>The run with defaults: claim C4\<close>

text \<open>
  C4: with the defaults (audio-only false, quality \<^verbatim>\<open>best\<close>, output directory
  \<^verbatim>\<open>downloads\<close>, no custom name) the first thing a run does is to create the directory
  \<^verbatim>\<open>downloads\<close> if it is absent, and the download library is called only after that
  call has returned (and the platform has been detected). The format selector it is
  called with has the three tiers mp4 video with m4a audio, best mp4, best overall.
\<close>

theorem download_defaults:
  "download E url False ''best'' ''downloads'' None =
     (case mkdir_raises E ''downloads'' of
        Some e \<Rightarrow> ([Mkdir ''downloads''], Inl e)
      | None \<Rightarrow>
          (case detect_platform url of
             Inl e \<Rightarrow> ([Mkdir ''downloads''], Inl e)
           | Inr platform \<Rightarrow>
               (case ydl_raises E (ydl_opts ''downloads/%(title)s.%(ext)s'' False ''best'') [url] of
                  Some e \<Rightarrow>
                    ([Mkdir ''downloads'', Print (Msg_platform platform),
                      Print (Msg_saving_to ''downloads''),
                      YdlDownload (ydl_opts ''downloads/%(title)s.%(ext)s'' False ''best'') [url]],
                     Inl e)
                | None \<Rightarrow>
                    ([Mkdir ''downloads'', Print (Msg_platform platform),
                      Print (Msg_saving_to ''downloads''),
                      YdlDownload (ydl_opts ''downloads/%(title)s.%(ext)s'' False ''best'') [url],
                      Print Msg_finished],
                     Inr ()))))
   \<and> ydl_opts ''downloads/%(title)s.%(ext)s'' False ''best'' ''format''
       = Some (Str ''bestvideo[ext=mp4]+bestaudio[ext=m4a]/best[ext=mp4]/best'')
   \<and> split_on CHR ''/'' ''bestvideo[ext=mp4]+bestaudio[ext=m4a]/best[ext=mp4]/best''
       = [''bestvideo[ext=mp4]+bestaudio[ext=m4a]'', ''best[ext=mp4]'', ''best'']"
proof -
  have run: "download E url False ''best'' ''downloads'' None =
     (case mkdir_raises E ''downloads'' of
        Some e \<Rightarrow> ([Mkdir ''downloads''], Inl e)
      | None \<Rightarrow>
          (case detect_platform url of
             Inl e \<Rightarrow> ([Mkdir ''downloads''], Inl e)
           | Inr platform \<Rightarrow>
               (case ydl_raises E (ydl_opts ''downloads/%(title)s.%(ext)s'' False ''best'') [url] of
                  Some e \<Rightarrow>
                    ([Mkdir ''downloads'', Print (Msg_platform platform),
                      Print (Msg_saving_to ''downloads''),
                      YdlDownload (ydl_opts ''downloads/%(title)s.%(ext)s'' False ''best'') [url]],
                     Inl e)
                | None \<Rightarrow>
                    ([Mkdir ''downloads'', Print (Msg_platform platform),
                      Print (Msg_saving_to ''downloads''),
                      YdlDownload (ydl_opts ''downloads/%(title)s.%(ext)s'' False ''best'') [url],
                      Print Msg_finished],
                     Inr ()))))"
    by (simp add: download_def expanduser_downloads path_str_downloads template_downloads
        split: option.splits sum.splits)
  have fmt: "ydl_opts ''downloads/%(title)s.%(ext)s'' False ''best'' ''format''
       = Some (Str ''bestvideo[ext=mp4]+bestaudio[ext=m4a]/best[ext=mp4]/best'')"
    by (simp add: ydl_opts_def)
  have tiers: "split_on CHR ''/'' ''bestvideo[ext=mp4]+bestaudio[ext=m4a]/best[ext=mp4]/best''
       = [''bestvideo[ext=mp4]+bestaudio[ext=m4a]'', ''best[ext=mp4]'', ''best'']"
    by simp
  from run fmt tiers show ?thesis
    by (rule conjI [OF _ conjI])
qed

theorem download_defaults_witness:
  "download env_ok ''https://youtu.be/x'' False ''best'' ''downloads'' None =
     ([Mkdir ''downloads'', Print (Msg_platform ''youtube''),
       Print (Msg_saving_to ''downloads''),
       YdlDownload (ydl_opts ''downloads/%(title)s.%(ext)s'' False ''best'')
         [''https://youtu.be/x''],
       Print Msg_finished], Inr ())
   \<and> ydl_opts ''downloads/%(title)s.%(ext)s'' False ''best'' ''format''
       = Some (Str ''bestvideo[ext=mp4]+bestaudio[ext=m4a]/best[ext=mp4]/best'')"
proof -
  have d: "detect_platform ''https://youtu.be/x'' = Inr ''youtube''"
    by (simp add: detect_platform_def urlparse_netloc_def Let_def ascii_alpha_def
        scheme_chars_def lower_def lower_char_def)
  from download_defaults [of env_ok "''https://youtu.be/x''"] d show ?thesis
    by (simp add: env_ok_def)
qed

section \<open>The output template: claims C7 and C10\<close>

text \<open>Stripping twice is stripping once, and stripping commutes with the substitution.\<close>

lemma lstrip_strip: "lstrip (strip s) = strip s"
  using strip_no_outer_space [of s]
  by (cases "strip s") (auto simp: lstrip_def)

lemma rstrip_idem: "rstrip (rstrip s) = rstrip s"
  by (simp add: rstrip_def dropWhile_idem)

lemma strip_idem: "strip (strip s) = strip s"
proof -
  have "strip (strip s) = rstrip (lstrip (strip s))"
    by (simp add: strip_def)
  also have "\<dots> = rstrip (rstrip (lstrip s))"
    by (simp add: lstrip_strip) (simp add: strip_def)
  finally show ?thesis
    by (simp add: rstrip_idem strip_def)
qed

lemma strip_map:
  assumes "\<And>c. isspace (f c) = isspace c"
  shows "strip (map f s) = map f (strip s)"
proof -
  have comp: "isspace \<circ> f = isspace"
    using assms by (simp add: fun_eq_iff)
  have l: "lstrip (map f u) = map f (lstrip u)" for u
    by (simp add: lstrip_def dropWhile_map comp)
  have r: "rstrip (map f u) = map f (rstrip u)" for u
    by (simp add: rstrip_def rev_map dropWhile_map comp)
  show ?thesis
    by (simp add: strip_def l r)
qed

lemma underscore_keeps_space:
  "isspace (if c \<in> set illegal_chars then CHR ''_'' else c) = isspace c"
  by (auto simp: illegal_chars_def isspace_def)

lemma safe_title_eq_underscore: "safe_title s = underscore_illegal s"
  by (simp add: safe_title_def underscore_illegal_def re_sub_class_single)

lemma safe_title_strip: "safe_title (strip n) = underscore_illegal n"
proof -
  let ?f = "\<lambda>c. if c \<in> set illegal_chars then CHR ''_'' else c"
  have "safe_title (strip n) = strip (map ?f (strip n))"
    by (simp add: safe_title_eq_underscore underscore_illegal_def)
  also have "\<dots> = strip (strip (map ?f n))"
    using strip_map [of ?f n] underscore_keeps_space by simp
  finally show ?thesis
    by (simp add: strip_idem underscore_illegal_def)
qed

lemma underscore_illegal_legal: "set (underscore_illegal s) \<inter> set illegal_chars = {}"
proof -
  have "set (underscore_illegal s)
          \<subseteq> set (map (\<lambda>c. if c \<in> set illegal_chars then CHR ''_'' else c) s)"
    unfolding underscore_illegal_def by (rule set_strip_subset)
  then show ?thesis
    using underscore_legal by (auto split: if_splits)
qed

lemma placeholder_clean: "underscore_illegal ''%(title)s'' = ''%(title)s''"
  by (simp add: underscore_illegal_def strip_def lstrip_def rstrip_def isspace_def
      illegal_chars_def)

text \<open>A file name without a slash becomes the last component under the directory.\<close>

lemma joinpath_file:
  assumes "CHR ''/'' \<notin> set stem"
  shows "joinpath p (stem @ ''.%(ext)s'')
           = \<lparr>root = root p, names = names p @ [stem @ ''.%(ext)s'']\<rparr>"
proof -
  let ?s = "stem @ ''.%(ext)s''"
  have no: "CHR ''/'' \<notin> set ?s"
    using assms by simp
  have hd: "hd ?s \<noteq> CHR ''/''"
    using assms by (cases stem) auto
  have dot: "?s \<noteq> ''.''"
    by (cases stem) auto
  have "splitroot ?s = ([], ?s)"
    using hd by (simp add: splitroot_def)
  moreover have "split_on CHR ''/'' ?s = [?s]"
    using no by (rule split_on_absent)
  ultimately have "parse_parts [?s] = \<lparr>root = [], names = [?s]\<rparr>"
    using dot by simp
  then show ?thesis
    by (simp add: joinpath_def)
qed

text \<open>The two sanitizing steps of the template, on the name or the placeholder.\<close>

lemma template_stem:
  "safe_title (strip (case custom_name of None \<Rightarrow> ''%(title)s'' | Some n \<Rightarrow> if n = [] then ''%(title)s'' else n))
   = (case custom_name of None \<Rightarrow> ''%(title)s'' | Some n \<Rightarrow> if n = [] then ''%(title)s'' else underscore_illegal n)"
  by (cases custom_name) (simp_all add: safe_title_strip placeholder_clean)

text \<open>
  C7, amended: for every output directory and every custom name, the template is the
  path of a file directly under the output directory whose name is a stem followed by
  the extension placeholder \<^verbatim>\<open>.%(ext)s\<close>; the stem is the sanitized custom name (every
  illegal character replaced by an underscore, then trimmed) if a non-empty custom
  name was given, and the title placeholder \<^verbatim>\<open>%(title)s\<close> if none or the empty string was
  given. The stem holds no illegal character, and the template is the \<^verbatim>\<open>outtmpl\<close> of
  every call of the download library.
\<close>

theorem template_shape:
  "(let stem = (case custom_name of
                  None \<Rightarrow> ''%(title)s''
                | Some n \<Rightarrow> if n = [] then ''%(title)s'' else underscore_illegal n)
    in template out_path custom_name
         = path_str \<lparr>root = root out_path, names = names out_path @ [stem @ ''.%(ext)s'']\<rparr>
       \<and> set stem \<inter> set illegal_chars = {}
       \<and> (\<forall>opts \<in> set (handed_options
                          (fst (download E url audio_only quality out_dir custom_name))).
             \<exists>dir. expanduser E (Path out_dir) = Inr dir
                   \<and> opts ''outtmpl'' = Some (Str (template dir custom_name))))"
proof -
  define stem where "stem = (case custom_name of
                  None \<Rightarrow> ''%(title)s''
                | Some n \<Rightarrow> if n = [] then ''%(title)s'' else underscore_illegal n)"
  have "stem = underscore_illegal ''%(title)s'' \<or> (\<exists>n. stem = underscore_illegal n)"
    unfolding stem_def by (cases custom_name) (auto simp: placeholder_clean)
  then have legal: "set stem \<inter> set illegal_chars = {}"
    using underscore_illegal_legal by metis
  have "CHR ''/'' \<in> set illegal_chars"
    by (simp add: illegal_chars_def)
  with legal have slash: "CHR ''/'' \<notin> set stem"
    by blast
  have t: "template out_path custom_name
         = path_str \<lparr>root = root out_path, names = names out_path @ [stem @ ''.%(ext)s'']\<rparr>"
    unfolding template_def Let_def template_stem stem_def [symmetric]
    by (simp add: joinpath_file [OF slash])
  have h: "\<exists>dir. expanduser E (Path out_dir) = Inr dir
                   \<and> opts ''outtmpl'' = Some (Str (template dir custom_name))"
    if "opts \<in> set (handed_options (fst (download E url audio_only quality out_dir custom_name)))"
    for opts
  proof -
    from handed_options_member [OF that] obtain dir
      where d: "expanduser E (Path out_dir) = Inr dir"
        and o: "opts = ydl_opts (template dir custom_name) audio_only quality"
      by blast
    have "ydl_opts tm audio_only quality ''outtmpl'' = Some (Str tm)" for tm
      by (simp add: ydl_opts_def Let_def)
    with d o show ?thesis
      by blast
  qed
  from t legal h show ?thesis
    unfolding Let_def stem_def by blast
qed

theorem template_shape_witness:
  "template (Path ''downloads'') (Some ''  my: video?  '') = ''downloads/my_ video_.%(ext)s''
   \<and> underscore_illegal ''  my: video?  '' = ''my_ video_''
   \<and> set ''my_ video_'' \<inter> set illegal_chars = {}
   \<and> path_str \<lparr>root = [], names = [''downloads'', ''my_ video_.%(ext)s'']\<rparr>
       = ''downloads/my_ video_.%(ext)s''"
proof -
  have u: "underscore_illegal ''  my: video?  '' = ''my_ video_''"
    by (simp add: underscore_illegal_def strip_def lstrip_def rstrip_def isspace_def
        illegal_chars_def)
  have p: "path_str \<lparr>root = [], names = [''downloads'', ''my_ video_.%(ext)s'']\<rparr>
       = ''downloads/my_ video_.%(ext)s''"
    by (simp add: path_str_def)
  from template_shape [of "Some ''  my: video?  ''" "Path ''downloads''" env_ok
      "''https://youtu.be/x''" False "''best''" "''downloads''"]
  show ?thesis
    by (simp add: Let_def u p Path_downloads)
qed

text \<open>
  C7 as the specification words it: the stem is the sanitized custom name if one was
  provided, else the title placeholder. For the empty custom name this reading gives a
  file named by its extension only, \<^verbatim>\<open>downloads/.%(ext)s\<close>; the code takes the
  placeholder.
\<close>

theorem template_empty_name_counterexample:
  "template (Path ''downloads'') (Some []) = ''downloads/%(title)s.%(ext)s''
   \<and> template_as_stated (Path ''downloads'') (Some []) = ''downloads/.%(ext)s''
   \<and> template (Path ''downloads'') (Some []) \<noteq> template_as_stated (Path ''downloads'') (Some [])"
  by (simp add: template_def template_as_stated_def underscore_illegal_def Path_downloads
      safe_title_def strip_def lstrip_def rstrip_def isspace_def illegal_chars_def
      joinpath_def splitroot_def path_str_def)

text \<open>
  C10: a custom name that is the empty string is as no custom name: the run of the
  download routine is the same, the template falls back to the title placeholder, and
  so is the run of the whole command.
\<close>

theorem empty_name_is_no_name:
  "download E url audio_only quality out_dir (Some []) = download E url audio_only quality out_dir None
   \<and> template out_path (Some []) = template out_path None
   \<and> main E (a\<lparr>args_name := Some []\<rparr>) = main E (a\<lparr>args_name := None\<rparr>)"
proof -
  have t: "template p (Some []) = template p None" for p
    by (simp add: template_def)
  have d: "download E u ao q d (Some []) = download E u ao q d None" for u ao q d
    unfolding download_def t by (rule refl)
  show ?thesis
    by (simp add: t d main_def)
qed

theorem empty_name_is_no_name_witness:
  "download env_ok ''https://youtu.be/x'' False ''best'' ''downloads'' (Some [])
     = ([Mkdir ''downloads'', Print (Msg_platform ''youtube''),
         Print (Msg_saving_to ''downloads''),
         YdlDownload (ydl_opts ''downloads/%(title)s.%(ext)s'' False ''best'')
           [''https://youtu.be/x''],
         Print Msg_finished], Inr ())
   \<and> template (Path ''downloads'') (Some []) = ''downloads/%(title)s.%(ext)s''"
  using empty_name_is_no_name [of env_ok "''https://youtu.be/x''" False "''best''"
      "''downloads''" "Path ''downloads''"]
  by (simp add: download_env_ok template_downloads)

section \<open>Interrupts and errors: claim C9\<close>

text \<open>An exception of the download library leaves the download routine as it is.\<close>

lemma download_outcome_of_delegate:
  assumes "opts \<in> set (handed_options (fst (download E url audio_only quality out_dir custom_name)))"
    and "ydl_raises E opts [url] = Some e"
  shows "snd (download E url audio_only quality out_dir custom_name) = Inl e"
proof -
  from handed_options_member [OF assms(1)] obtain dir
    where d: "expanduser E (Path out_dir) = Inr dir"
      and o: "opts = ydl_opts (template dir custom_name) audio_only quality"
    by blast
  from assms(1) d have m: "mkdir_raises E (path_str dir) = None"
    by (auto simp: handed_options_download split: option.splits)
  from assms(1) d m obtain platform where p: "detect_platform url = Inr platform"
    by (cases "detect_platform url") (auto simp: handed_options_download)
  from d m p o assms(2) show ?thesis
    by (simp add: download_def)
qed

text \<open>A run with the defaults in which the download library raises.\<close>

lemma download_youtube_defaults:
  assumes "mkdir_raises E ''downloads'' = None"
    and "ydl_raises E (ydl_opts ''downloads/%(title)s.%(ext)s'' False ''best'')
           [''https://youtu.be/x''] = Some e"
  shows "download E ''https://youtu.be/x'' False ''best'' ''downloads'' None =
     ([Mkdir ''downloads'', Print (Msg_platform ''youtube''),
       Print (Msg_saving_to ''downloads''),
       YdlDownload (ydl_opts ''downloads/%(title)s.%(ext)s'' False ''best'')
         [''https://youtu.be/x'']], Inl e)"
proof -
  have d: "detect_platform ''https://youtu.be/x'' = Inr ''youtube''"
    by (simp add: detect_platform_def urlparse_netloc_def Let_def ascii_alpha_def
        scheme_chars_def lower_def lower_char_def)
  show ?thesis
    using assms
    by (simp add: download_def expanduser_downloads path_str_downloads template_downloads d)
qed

text \<open>
  C9: an exception that the download library raises leaves the download routine. When
  it is the interrupt of the user, \<^verbatim>\<open>main\<close> catches it and the process ends with the
  abort message and the status 1. Every other exception is not caught: it reaches the
  process boundary and the process ends with the status 1. Only a run that returns
  ends with the status 0.
\<close>

theorem main_catches_interrupt_only:
  "(let run = download E (args_url a) (args_audio_only a) (args_quality a)
                (args_output_dir a) (args_name a)
    in (\<forall>opts e. opts \<in> set (handed_options (fst run))
                   \<and> ydl_raises E opts [args_url a] = Some e \<longrightarrow> snd run = Inl e)
       \<and> (snd run = Inl KeyboardInterrupt \<longrightarrow>
            main E a = (fst run, Exit_message Msg_aborted)
            \<and> exit_status (snd (main E a)) = 1)
       \<and> (\<forall>c. snd run = Inl (Exception c) \<longrightarrow>
            main E a = (fst run, Traceback (Exception c))
            \<and> exit_status (snd (main E a)) = 1)
       \<and> (snd run = Inr () \<longrightarrow>
            main E a = (fst run, Exit_success)
            \<and> exit_status (snd (main E a)) = 0))"
proof -
  define run where "run = download E (args_url a) (args_audio_only a) (args_quality a)
                (args_output_dir a) (args_name a)"
  have delegate: "snd run = Inl e"
    if "opts \<in> set (handed_options (fst run))" "ydl_raises E opts [args_url a] = Some e"
    for opts e
    using that unfolding run_def by (rule download_outcome_of_delegate)
  have m: "main E a = (case run of
        (evs, Inl KeyboardInterrupt) \<Rightarrow> (evs, Exit_message Msg_aborted)
      | (evs, Inl (Exception c)) \<Rightarrow> (evs, Traceback (Exception c))
      | (evs, Inr u) \<Rightarrow> (evs, Exit_success))"
    by (simp add: main_def run_def)
  have interrupt: "main E a = (fst run, Exit_message Msg_aborted)
            \<and> exit_status (snd (main E a)) = 1"
    if "snd run = Inl KeyboardInterrupt"
    using that unfolding m by (cases run) simp
  have error: "main E a = (fst run, Traceback (Exception c))
            \<and> exit_status (snd (main E a)) = 1"
    if "snd run = Inl (Exception c)" for c
    using that unfolding m by (cases run) simp
  have return: "main E a = (fst run, Exit_success) \<and> exit_status (snd (main E a)) = 0"
    if "snd run = Inr ()"
    using that unfolding m by (cases run) simp
  from delegate interrupt error return show ?thesis
    unfolding Let_def run_def [symmetric] by blast
qed

theorem main_catches_interrupt_only_witness:
  "main env_interrupt
     \<lparr>args_url = ''https://youtu.be/x'', args_audio_only = False, args_quality = ''best'',
      args_output_dir = ''downloads'', args_name = None\<rparr>
     = ([Mkdir ''downloads'', Print (Msg_platform ''youtube''),
         Print (Msg_saving_to ''downloads''),
         YdlDownload (ydl_opts ''downloads/%(title)s.%(ext)s'' False ''best'')
           [''https://youtu.be/x'']],
        Exit_message Msg_aborted)
   \<and> main env_error
     \<lparr>args_url = ''https://youtu.be/x'', args_audio_only = False, args_quality = ''best'',
      args_output_dir = ''downloads'', args_name = None\<rparr>
     = ([Mkdir ''downloads'', Print (Msg_platform ''youtube''),
         Print (Msg_saving_to ''downloads''),
         YdlDownload (ydl_opts ''downloads/%(title)s.%(ext)s'' False ''best'')
           [''https://youtu.be/x'']],
        Traceback (Exception ''DownloadError''))
   \<and> exit_status (Exit_message Msg_aborted) = 1
   \<and> exit_status (Traceback (Exception ''DownloadError'')) = 1"
proof -
  let ?a = "\<lparr>args_url = ''https://youtu.be/x'', args_audio_only = False,
             args_quality = ''best'', args_output_dir = ''downloads'', args_name = None\<rparr>"
  have i: "download env_interrupt ''https://youtu.be/x'' False ''best'' ''downloads'' None =
     ([Mkdir ''downloads'', Print (Msg_platform ''youtube''),
       Print (Msg_saving_to ''downloads''),
       YdlDownload (ydl_opts ''downloads/%(title)s.%(ext)s'' False ''best'')
         [''https://youtu.be/x'']], Inl KeyboardInterrupt)"
    by (rule download_youtube_defaults) (simp_all add: env_interrupt_def env_ok_def)
  have e: "download env_error ''https://youtu.be/x'' False ''best'' ''downloads'' None =
     ([Mkdir ''downloads'', Print (Msg_platform ''youtube''),
       Print (Msg_saving_to ''downloads''),
       YdlDownload (ydl_opts ''downloads/%(title)s.%(ext)s'' False ''best'')
         [''https://youtu.be/x'']], Inl (Exception ''DownloadError''))"
    by (rule download_youtube_defaults) (simp_all add: env_error_def env_ok_def)
  from main_catches_interrupt_only [of env_interrupt ?a]
    main_catches_interrupt_only [of env_error ?a] i e
  show ?thesis
    by (simp add: Let_def)
qed

section \<open>The URL does not reach the options: claim C8\<close>

text \<open>
  C8: for any two URLs and the same audio-only flag, quality token, output directory
  and custom name, in the same environment, the options handed to the download library
  in the run for the one URL and in the run for the other are identical. When platform
  detection returns for both URLs, whatever the two platforms are, the two runs hand
  over the same options or both hand over nothing.
\<close>

theorem options_independent_of_url:
  "(opts1 \<in> set (handed_options (fst (download E url1 audio_only quality out_dir custom_name)))
    \<and> opts2 \<in> set (handed_options (fst (download E url2 audio_only quality out_dir custom_name)))
    \<longrightarrow> opts1 = opts2)
   \<and> ((\<exists>p1. detect_platform url1 = Inr p1) \<and> (\<exists>p2. detect_platform url2 = Inr p2)
      \<longrightarrow> handed_options (fst (download E url1 audio_only quality out_dir custom_name))
          = handed_options (fst (download E url2 audio_only quality out_dir custom_name)))"
proof -
  have same: "opts1 = opts2"
    if "opts1 \<in> set (handed_options (fst (download E url1 audio_only quality out_dir custom_name)))"
      and "opts2 \<in> set (handed_options (fst (download E url2 audio_only quality out_dir custom_name)))"
    using handed_options_member [OF that(1)] handed_options_member [OF that(2)]
    by auto
  have both: "handed_options (fst (download E url1 audio_only quality out_dir custom_name))
          = handed_options (fst (download E url2 audio_only quality out_dir custom_name))"
    if "detect_platform url1 = Inr p1" and "detect_platform url2 = Inr p2" for p1 p2
    using that by (simp add: handed_options_download split: sum.splits option.splits)
  from same both show ?thesis
    by blast
qed

theorem options_independent_of_url_witness:
  "detect_platform ''https://youtu.be/x'' = Inr ''youtube''
   \<and> detect_platform ''https://www.instagram.com/reel/abc'' = Inr ''instagram''
   \<and> handed_options (fst (download env_ok ''https://youtu.be/x'' True ''720p'' ''media'' (Some ''clip'')))
       = handed_options (fst (download env_ok ''https://www.instagram.com/reel/abc'' True ''720p'' ''media'' (Some ''clip'')))
   \<and> handed_options (fst (download env_ok ''https://youtu.be/x'' True ''720p'' ''media'' (Some ''clip'')))
       = [ydl_opts ''media/clip.%(ext)s'' True ''720p'']"
proof -
  have y: "detect_platform ''https://youtu.be/x'' = Inr ''youtube''"
    by (simp add: detect_platform_def urlparse_netloc_def Let_def ascii_alpha_def
        scheme_chars_def lower_def lower_char_def)
  have i: "detect_platform ''https://www.instagram.com/reel/abc'' = Inr ''instagram''"
    by (simp add: detect_platform_def urlparse_netloc_def Let_def ascii_alpha_def
        scheme_chars_def lower_def lower_char_def)
  have p: "Path ''media'' = \<lparr>root = [], names = [''media'']\<rparr>"
    by (simp add: Path_def splitroot_def)
  have t: "template \<lparr>root = [], names = [''media'']\<rparr> (Some ''clip'') = ''media/clip.%(ext)s''"
    by (simp add: template_def safe_title_def strip_def lstrip_def rstrip_def isspace_def
        illegal_chars_def joinpath_def splitroot_def path_str_def)
  have h: "handed_options (fst (download env_ok ''https://youtu.be/x'' True ''720p'' ''media'' (Some ''clip'')))
       = [ydl_opts ''media/clip.%(ext)s'' True ''720p'']"
    by (simp add: handed_options_download expanduser_def p y t path_str_def env_ok_def)
  from options_independent_of_url [of _ env_ok "''https://youtu.be/x''" True "''720p''"
      "''media''" "Some ''clip''" _ "''https://www.instagram.com/reel/abc''"] y i h
  show ?thesis
    by simp
qed

end
